theory Spec2Isabelle
  imports Main
begin

section \<open>Duty-indexed navigation of workshifts (timeboard/workshift.py)\<close>

text \<open>
  A shallow embedding of class \<open>Workshift\<close>: its constructor, the two navigation
  methods \<open>rollforward\<close> and \<open>rollback\<close>, and the operators \<open>+\<close> and \<open>-\<close>.
  Python integers are \<open>int\<close>, the duty argument is a \<open>string\<close> as in the source, the
  index arrays of a schedule are numpy arrays, and an index that numpy computes is an
  \<open>int64\<close> with its wrap-around written out. Every way a call can end is a value:
  a workshift returned, an exception raised, or the call of the timeboard's
  out-of-bounds handler.
\<close>

subsection \<open>Collaborators: schedule and timeboard\<close>

text \<open>
  A numpy array of integers. Its length is itself an \<open>int64\<close> (\<open>numpy.intp\<close>), so an
  array has fewer than \<open>2 ^ 63\<close> entries; \<open>elements\<close> gives the entries in order.
\<close>

typedef ndarray = "{xs :: int list. length xs < 2 ^ 63}"
  morphisms elements ndarray
  by (rule exI[of _ "[]"]) simp

text \<open>The two exceptions \<open>schedule.label\<close> answers a bad location with.\<close>

datatype lookup_error = Label_TypeError | Label_IndexError

text \<open>
  Modelled from the spec: class \<open>_Schedule\<close> is not among the sources, so a schedule is a
  parameter with the read interface of section 6 of the specification: \<open>label\<close> fails
  with a type-mismatch condition or a range condition or gives the label, \<open>is_on_duty\<close>
  and \<open>is_off_duty\<close> give a boolean per position, and the three index arrays (numpy
  arrays) and the activity descriptor are plain attributes. The type \<open>'p\<close> of locations is left open so
  that the constructor can be given any Python value; navigation works on \<open>int\<close>.
\<close>

record ('p, 'l) schedule =
  label :: "'p \<Rightarrow> lookup_error + 'l"
  is_on_duty :: "'p \<Rightarrow> bool"
  is_off_duty :: "'p \<Rightarrow> bool"
  on_duty_array :: ndarray
  off_duty_array :: ndarray
  index_array :: ndarray
  activity :: string

text \<open>
  The attributes \<open>on_duty_index\<close>, \<open>off_duty_index\<close> and \<open>index\<close> of a schedule, each read
  as the list of the entries of its array.
\<close>

definition on_duty_index :: "('p, 'l) schedule \<Rightarrow> int list" where
  "on_duty_index s = elements (on_duty_array s)"

definition off_duty_index :: "('p, 'l) schedule \<Rightarrow> int list" where
  "off_duty_index s = elements (off_duty_array s)"

definition index :: "('p, 'l) schedule \<Rightarrow> int list" where
  "index s = elements (index_array s)"

text \<open>
  Modelled from the spec: class \<open>Timeboard\<close> is not among the sources. A workshift reads
  its \<open>default_schedule\<close> and the reference time of a position on its timeline
  (\<open>_timeline.get_ws_ref_time\<close>), and calls its \<open>_handle_out_of_bounds\<close>, whose policy
  belongs to the timeboard: the call itself is an outcome of navigation below.
\<close>

record ('p, 'l, 't) timeboard =
  default_schedule :: "('p, 'l) schedule"
  get_ws_ref_time :: "'p \<Rightarrow> 't"

subsection \<open>Workshift and its constructor\<close>

text \<open>The attributes \<open>_tb\<close>, \<open>_loc\<close>, \<open>_schedule\<close> and \<open>_label\<close> of a workshift.\<close>

record ('p, 'l, 't) workshift =
  ws_tb :: "('p, 'l, 't) timeboard"
  ws_loc :: 'p
  ws_schedule :: "('p, 'l) schedule"
  ws_label :: 'l

text \<open>What a method of \<open>Workshift\<close> can raise.\<close>

datatype error = TypeError | OutOfBoundsError | IndexError | OverflowError

text \<open>
  \<open>Workshift.__init__\<close>: the schedule defaults to the timeboard's, the label is looked
  up, a \<open>TypeError\<close> of the lookup is raised again as \<open>TypeError\<close> and an \<open>IndexError\<close> as
  \<open>OutOfBoundsError\<close>. The test for a negative location is commented out in the source.
\<close>

definition Workshift ::
  "('p, 'l, 't) timeboard \<Rightarrow> 'p \<Rightarrow> ('p, 'l) schedule option \<Rightarrow> error + ('p, 'l, 't) workshift"
where
  "Workshift timeboard location schedule_arg =
     (let schedule = (case schedule_arg of None \<Rightarrow> default_schedule timeboard | Some s \<Rightarrow> s)
      in case label schedule location of
           Inl Label_TypeError \<Rightarrow> Inl TypeError
         | Inl Label_IndexError \<Rightarrow> Inl OutOfBoundsError
         | Inr l \<Rightarrow> Inr \<lparr>ws_tb = timeboard, ws_loc = location,
                          ws_schedule = schedule, ws_label = l\<rparr>)"

definition to_timestamp :: "('p, 'l, 't) workshift \<Rightarrow> 't" where
  "to_timestamp ws = get_ws_ref_time (ws_tb ws) (ws_loc ws)"

definition ws_is_on_duty :: "('p, 'l, 't) workshift \<Rightarrow> bool" where
  "ws_is_on_duty ws = is_on_duty (ws_schedule ws) (ws_loc ws)"

definition ws_is_off_duty :: "('p, 'l, 't) workshift \<Rightarrow> bool" where
  "ws_is_off_duty ws = is_off_duty (ws_schedule ws) (ws_loc ws)"

subsection \<open>Array primitives\<close>

text \<open>
  Reading \<open>idx[i]\<close> with a Python integer: a negative index counts from the end, an
  index outside the array raises \<open>IndexError\<close>.
\<close>

definition getitem :: "int list \<Rightarrow> int \<Rightarrow> error + int" where
  "getitem idx i =
     (let n = int (length idx); j = (if i < 0 then n + i else i)
      in if 0 \<le> j \<and> j < n then Inr (idx ! nat j) else Inl IndexError)"

text \<open>
  \<open>i + n\<close> where \<open>i\<close> is a numpy \<open>int64\<close> and \<open>n\<close> a Python integer: numpy converts \<open>n\<close> to
  \<open>int64\<close> and raises \<open>OverflowError\<close> when it does not fit; the sum of the two \<open>int64\<close>
  values wraps around modulo \<open>2 ^ 64\<close>.
\<close>

definition int64_add :: "int \<Rightarrow> int \<Rightarrow> error + int" where
  "int64_add i n =
     (if - (2 ^ 63) \<le> n \<and> n < 2 ^ 63
      then Inr ((i + n + 2 ^ 63) mod 2 ^ 64 - 2 ^ 63)
      else Inl OverflowError)"

text \<open>
  \<open>numpy.searchsorted(a, v)\<close> with its default \<open>side='left'\<close> is a binary search for
  the leftmost insertion point: the bounds start at \<open>0\<close> and \<open>len(a)\<close>, the middle
  element is compared with \<open>v\<close> by \<open><\<close>, and the lower bound is the result.
\<close>

function binsearch_left :: "int list \<Rightarrow> int \<Rightarrow> nat \<Rightarrow> nat \<Rightarrow> nat" where
  "binsearch_left a v lo hi =
     (if lo < hi then
        (let mid = lo + (hi - lo) div 2
         in if a ! mid < v then binsearch_left a v (mid + 1) hi
            else binsearch_left a v lo mid)
      else lo)"
  by pat_completeness auto
termination
  by (relation "measure (\<lambda>(a, v, lo, hi). hi - lo)") auto

declare binsearch_left.simps [simp del]

definition searchsorted :: "int list \<Rightarrow> int \<Rightarrow> int" where
  "searchsorted a v = int (binsearch_left a v 0 (length a))"

subsection \<open>Navigation\<close>

text \<open>
  The arguments of the message handed to \<open>_handle_out_of_bounds\<close>: the timestamp of
  the workshift, \<open>steps\<close>, \<open>duty\<close> and the schedule's activity, under the name of the
  method that formats them.
\<close>

datatype 't oob_message =
    Rollforward_message 't int string string
  | Rollback_message 't int string string

datatype ('a, 't) outcome =
    Returned 'a
  | Raised error
  | Handle_out_of_bounds "'t oob_message"

text \<open>Lines 189 to 195 of \<open>rollforward\<close>: the index array that \<open>duty\<close> selects.\<close>

definition rollforward_idx :: "(int, 'l, 't) workshift \<Rightarrow> string \<Rightarrow> int list" where
  "rollforward_idx ws duty =
     (let schedule = ws_schedule ws in
      if duty = ''off'' \<or> (duty = ''same'' \<and> ws_is_off_duty ws)
           \<or> (duty = ''alt'' \<and> ws_is_on_duty ws)
      then off_duty_index schedule
      else if duty = ''any'' then index schedule
      else on_duty_index schedule)"

text \<open>
  Lines 197 to 205 of \<open>rollforward\<close>: search, bounds test, result. The result \<open>i\<close> of
  \<open>searchsorted\<close> is a numpy \<open>int64\<close>, so \<open>i + steps\<close> is numpy's addition; it is not
  evaluated when \<open>i == len_idx\<close> already decides the test, and each of its evaluations
  gives the same value or the same exception.
\<close>

definition rollforward_from ::
  "int list \<Rightarrow> (int, 'l, 't) workshift \<Rightarrow> int \<Rightarrow> string \<Rightarrow> ((int, 'l, 't) workshift, 't) outcome"
where
  "rollforward_from idx ws steps duty =
     (let schedule = ws_schedule ws;
          len_idx = int (length idx);
          i = searchsorted idx (ws_loc ws)
      in if i = len_idx
         then Handle_out_of_bounds
                (Rollforward_message (to_timestamp ws) steps duty (activity schedule))
         else (case int64_add i steps of
                 Inl e \<Rightarrow> Raised e
               | Inr t \<Rightarrow>
                   if t < 0 \<or> t \<ge> len_idx
                   then Handle_out_of_bounds
                          (Rollforward_message (to_timestamp ws) steps duty (activity schedule))
                   else (case getitem idx t of
                           Inl e \<Rightarrow> Raised e
                         | Inr q \<Rightarrow>
                             (case Workshift (ws_tb ws) q (Some schedule) of
                                Inl e \<Rightarrow> Raised e
                              | Inr w \<Rightarrow> Returned w))))"

definition rollforward ::
  "(int, 'l, 't) workshift \<Rightarrow> int \<Rightarrow> string \<Rightarrow> ((int, 'l, 't) workshift, 't) outcome"
where
  "rollforward ws steps duty = rollforward_from (rollforward_idx ws duty) ws steps duty"

text \<open>Lines 263 to 269 of \<open>rollback\<close>: the same selection, written out again there.\<close>

definition rollback_idx :: "(int, 'l, 't) workshift \<Rightarrow> string \<Rightarrow> int list" where
  "rollback_idx ws duty =
     (let schedule = ws_schedule ws in
      if duty = ''off'' \<or> (duty = ''same'' \<and> ws_is_off_duty ws)
           \<or> (duty = ''alt'' \<and> ws_is_on_duty ws)
      then off_duty_index schedule
      else if duty = ''any'' then index schedule
      else on_duty_index schedule)"

text \<open>
  The loop of lines 274 and 275, \<open>while i >= 0 and idx[i] > self._loc: i -= 1\<close>. The
  test \<open>i >= 0\<close> comes first and guards the read, and a failing read would end the
  loop with its exception.
\<close>

function rollback_scan :: "int list \<Rightarrow> int \<Rightarrow> int \<Rightarrow> error + int" where
  "rollback_scan idx loc i =
     (if i \<ge> 0 then
        (case getitem idx i of
           Inl e \<Rightarrow> Inl e
         | Inr x \<Rightarrow> if x > loc then rollback_scan idx loc (i - 1) else Inr i)
      else Inr i)"
  by pat_completeness auto
termination
  by (relation "measure (\<lambda>(idx, loc, i). nat (i + 1))") auto

declare rollback_scan.simps [simp del]

text \<open>
  Lines 272 to 283 of \<open>rollback\<close>. Here \<open>i\<close> starts as \<open>len_idx - 1\<close>, a Python integer, so
  \<open>i - steps\<close> is exact.
\<close>

definition rollback_from ::
  "int list \<Rightarrow> (int, 'l, 't) workshift \<Rightarrow> int \<Rightarrow> string \<Rightarrow> ((int, 'l, 't) workshift, 't) outcome"
where
  "rollback_from idx ws steps duty =
     (let schedule = ws_schedule ws;
          len_idx = int (length idx)
      in case rollback_scan idx (ws_loc ws) (len_idx - 1) of
           Inl e \<Rightarrow> Raised e
         | Inr i \<Rightarrow>
             if i = - 1 \<or> i - steps < 0 \<or> i - steps \<ge> len_idx
             then Handle_out_of_bounds
                    (Rollback_message (to_timestamp ws) steps duty (activity schedule))
             else (case getitem idx (i - steps) of
                     Inl e \<Rightarrow> Raised e
                   | Inr q \<Rightarrow>
                       (case Workshift (ws_tb ws) q (Some schedule) of
                          Inl e \<Rightarrow> Raised e
                        | Inr w \<Rightarrow> Returned w)))"

definition rollback ::
  "(int, 'l, 't) workshift \<Rightarrow> int \<Rightarrow> string \<Rightarrow> ((int, 'l, 't) workshift, 't) outcome"
where
  "rollback ws steps duty = rollback_from (rollback_idx ws duty) ws steps duty"

subsection \<open>The operators\<close>

text \<open>
  The right operand of \<open>ws + other\<close> and \<open>ws - other\<close>: an instance of \<open>int\<close>, a
  workshift, or anything else. Where the operand is not an \<open>int\<close> the methods return
  \<open>NotImplemented\<close>.
\<close>

datatype ('p, 'l, 't) operand =
    Int_operand int
  | Workshift_operand "('p, 'l, 't) workshift"
  | Other_operand

datatype 'r binop_result = NotImplemented | Result 'r

definition add ::
  "(int, 'l, 't) workshift \<Rightarrow> (int, 'l, 't) operand
     \<Rightarrow> ((int, 'l, 't) workshift, 't) outcome binop_result"
where
  "add ws other =
     (case other of
        Int_operand n \<Rightarrow> Result (rollforward ws n ''on'')
      | _ \<Rightarrow> NotImplemented)"

definition sub ::
  "(int, 'l, 't) workshift \<Rightarrow> (int, 'l, 't) operand
     \<Rightarrow> ((int, 'l, 't) workshift, 't) outcome binop_result"
where
  "sub ws other =
     (case other of
        Int_operand n \<Rightarrow> Result (rollback ws n ''on'')
      | Workshift_operand w \<Rightarrow> NotImplemented
      | Other_operand \<Rightarrow> NotImplemented)"

subsection \<open>The searches as the specification words them\<close>

text \<open>
  Section 4.1 of the specification: \<open>positionOfOrAfter\<close> is the smallest index \<open>i\<close>
  such that \<open>seq[i] >= pos\<close>, and \<open>len(seq)\<close> if there is none; \<open>positionOfOrBefore\<close>
  is the largest index \<open>i\<close> such that \<open>seq[i] <= pos\<close>, and \<open>-1\<close> if there is none.
  These two follow the specification's words, not the code, and are what the code's
  searches are compared with.
\<close>

definition positionOfOrAfter :: "int list \<Rightarrow> int \<Rightarrow> int" where
  "positionOfOrAfter seq pos =
     (let js = filter (\<lambda>i. seq ! i \<ge> pos) [0..<length seq]
      in if js = [] then int (length seq) else int (Min (set js)))"

definition positionOfOrBefore :: "int list \<Rightarrow> int \<Rightarrow> int" where
  "positionOfOrBefore seq pos =
     (let js = filter (\<lambda>i. seq ! i \<le> pos) [0..<length seq]
      in if js = [] then - 1 else int (Max (set js)))"

subsection \<open>A timeboard of ten workshifts\<close>

text \<open>
  The example of section 8 of the specification: positions \<open>0\<close> to \<open>9\<close>, the even ones
  on duty. The label of a position is \<open>1\<close> on duty and \<open>0\<close> off duty; like an array, the
  lookup also takes the negative positions \<open>-10\<close> to \<open>-1\<close>, counted from the end.
\<close>

definition example_schedule :: "(int, int) schedule" where
  "example_schedule =
     \<lparr>label = (\<lambda>p. if - 10 \<le> p \<and> p < 10 then Inr (if even p then 1 else 0)
                     else Inl Label_IndexError),
      is_on_duty = (\<lambda>p. even p),
      is_off_duty = (\<lambda>p. odd p),
      on_duty_array = ndarray [0, 2, 4, 6, 8],
      off_duty_array = ndarray [1, 3, 5, 7, 9],
      index_array = ndarray [0, 1, 2, 3, 4, 5, 6, 7, 8, 9],
      activity = ''on_duty''\<rparr>"

definition example_timeboard :: "(int, int, int) timeboard" where
  "example_timeboard =
     \<lparr>default_schedule = example_schedule, get_ws_ref_time = (\<lambda>p. 1000 + p)\<rparr>"

definition example_workshift :: "int \<Rightarrow> (int, int, int) workshift" where
  "example_workshift p =
     \<lparr>ws_tb = example_timeboard, ws_loc = p, ws_schedule = example_schedule,
      ws_label = (if even p then 1 else 0)\<rparr>"

text \<open>A schedule over locations that are strings: its lookup takes none of them.\<close>

definition string_schedule :: "(string, int) schedule" where
  "string_schedule =
     \<lparr>label = (\<lambda>p. Inl Label_TypeError),
      is_on_duty = (\<lambda>p. False),
      is_off_duty = (\<lambda>p. False),
      on_duty_array = ndarray [],
      off_duty_array = ndarray [],
      index_array = ndarray [],
      activity = ''on_duty''\<rparr>"

definition string_timeboard :: "(string, int, int) timeboard" where
  "string_timeboard =
     \<lparr>default_schedule = string_schedule, get_ws_ref_time = (\<lambda>p. 0)\<rparr>"

section \<open>Properties of the searches\<close>

lemma binsearch_left_bounds:
  "lo \<le> hi \<Longrightarrow> lo \<le> binsearch_left a v lo hi \<and> binsearch_left a v lo hi \<le> hi"
proof (induction a v lo hi rule: binsearch_left.induct)
  case (1 a v lo hi)
  show ?case
  proof (cases "lo < hi")
    case False
    then have "binsearch_left a v lo hi = lo"
      by (subst binsearch_left.simps) simp
    with "1.prems" False show ?thesis by simp
  next
    case True
    define mid where "mid = lo + (hi - lo) div 2"
    have m: "lo \<le> mid" "mid < hi" using True by (simp_all add: mid_def)
    show ?thesis
    proof (cases "a ! mid < v")
      case lt: True
      have "mid + 1 \<le> binsearch_left a v (mid + 1) hi \<and> binsearch_left a v (mid + 1) hi \<le> hi"
        using "1.IH"(1)[OF True mid_def lt] m by simp
      moreover have "binsearch_left a v lo hi = binsearch_left a v (mid + 1) hi"
        using True lt by (subst binsearch_left.simps) (simp add: mid_def Let_def)
      ultimately show ?thesis using m by simp
    next
      case ge: False
      have "lo \<le> binsearch_left a v lo mid \<and> binsearch_left a v lo mid \<le> mid"
        using "1.IH"(2)[OF True mid_def ge] m by simp
      moreover have "binsearch_left a v lo hi = binsearch_left a v lo mid"
        using True ge by (subst binsearch_left.simps) (simp add: mid_def Let_def)
      ultimately show ?thesis using m by simp
    qed
  qed
qed

lemma binsearch_left_sorted:
  "sorted a \<Longrightarrow> lo \<le> hi \<Longrightarrow> hi \<le> length a
   \<Longrightarrow> (\<forall>j<lo. a ! j < v) \<Longrightarrow> (\<forall>j. hi \<le> j \<and> j < length a \<longrightarrow> v \<le> a ! j)
   \<Longrightarrow> (\<forall>j<binsearch_left a v lo hi. a ! j < v)
       \<and> (\<forall>j. binsearch_left a v lo hi \<le> j \<and> j < length a \<longrightarrow> v \<le> a ! j)"
proof (induction a v lo hi rule: binsearch_left.induct)
  case (1 a v lo hi)
  show ?case
  proof (cases "lo < hi")
    case False
    then have "binsearch_left a v lo hi = lo"
      by (subst binsearch_left.simps) simp
    moreover have "lo = hi" using False "1.prems"(2) by simp
    ultimately show ?thesis using "1.prems"(4,5) by simp
  next
    case True
    define mid where "mid = lo + (hi - lo) div 2"
    have m: "lo \<le> mid" "mid < hi" using True by (simp_all add: mid_def)
    show ?thesis
    proof (cases "a ! mid < v")
      case lt: True
      have below: "\<forall>j<mid + 1. a ! j < v"
      proof (intro allI impI)
        fix j assume "j < mid + 1"
        then have "j \<le> mid" by simp
        then have "a ! j \<le> a ! mid"
          using "1.prems"(1,3) m by (simp add: sorted_iff_nth_mono)
        with lt show "a ! j < v" by simp
      qed
      have eq: "binsearch_left a v lo hi = binsearch_left a v (mid + 1) hi"
        using True lt by (subst binsearch_left.simps) (simp add: mid_def Let_def)
      show ?thesis
        unfolding eq
        using "1.IH"(1)[OF True mid_def lt "1.prems"(1) _ "1.prems"(3) below "1.prems"(5)] m
        by simp
    next
      case ge: False
      have above: "\<forall>j. mid \<le> j \<and> j < length a \<longrightarrow> v \<le> a ! j"
      proof (intro allI impI)
        fix j assume "mid \<le> j \<and> j < length a"
        then have "a ! mid \<le> a ! j"
          using "1.prems"(1) by (simp add: sorted_iff_nth_mono)
        with ge show "v \<le> a ! j" by simp
      qed
      have eq: "binsearch_left a v lo hi = binsearch_left a v lo mid"
        using True ge by (subst binsearch_left.simps) (simp add: mid_def Let_def)
      show ?thesis
        unfolding eq
        using "1.IH"(2)[OF True mid_def ge "1.prems"(1) _ _ "1.prems"(4) above] m "1.prems"(3)
        by simp
    qed
  qed
qed

lemma searchsorted_bounds: "0 \<le> searchsorted a v \<and> searchsorted a v \<le> int (length a)"
  using binsearch_left_bounds[of 0 "length a" a v] by (simp add: searchsorted_def)

lemma searchsorted_sorted:
  assumes "sorted a"
  shows "(\<forall>j. int j < searchsorted a v \<longrightarrow> a ! j < v)
       \<and> (\<forall>j. searchsorted a v \<le> int j \<and> j < length a \<longrightarrow> v \<le> a ! j)"
  using binsearch_left_sorted[OF assms, of 0 "length a" v] by (simp add: searchsorted_def)

lemma getitem_in_range: "0 \<le> i \<Longrightarrow> i < int (length idx) \<Longrightarrow> getitem idx i = Inr (idx ! nat i)"
  by (simp add: getitem_def)

lemma elements_ndarray: "length xs < 2 ^ 63 \<Longrightarrow> elements (ndarray xs) = xs"
  by (simp add: ndarray_inverse)

lemma length_elements: "length (elements a) < 2 ^ 63"
  using elements[of a] by simp

lemma wrap_in_range:
  fixes x h :: int
  assumes "- h \<le> x" and "x < h"
  shows "(x + h) mod (2 * h) - h = x"
proof -
  have "(x + h) mod (2 * h) = x + h"
    by (rule mod_pos_pos_trivial) (use assms in simp_all)
  then show ?thesis by simp
qed

lemma wrap_above:
  fixes x h :: int
  assumes "h \<le> x" and "x < 3 * h"
  shows "(x + h) mod (2 * h) - h = x - 2 * h"
proof -
  have "(x + h - 2 * h) mod (2 * h) = x + h - 2 * h"
    by (rule mod_pos_pos_trivial) (use assms in simp_all)
  moreover have "(x + h - 2 * h) mod (2 * h) = (x + h) mod (2 * h)"
    by (rule minus_mod_self2)
  ultimately show ?thesis by simp
qed

lemma int64_add_overflow:
  "n < - (2 ^ 63) \<or> 2 ^ 63 \<le> n \<Longrightarrow> int64_add i n = Inl OverflowError"
  by (auto simp: int64_add_def)

lemma int64_add_exact:
  assumes "0 \<le> i" and "i < 2 ^ 63" and "- (2 ^ 63) \<le> n" and "n < 2 ^ 63"
  shows "int64_add i n = Inr (if i + n < 2 ^ 63 then i + n else i + n - 2 ^ 64)"
proof (cases "i + n < 2 ^ 63")
  case True
  have "(i + n + 2 ^ 63) mod (2 * 2 ^ 63) - 2 ^ 63 = i + n"
    by (rule wrap_in_range) (use assms True in simp_all)
  then show ?thesis using assms True by (simp add: int64_add_def)
next
  case False
  have "(i + n + 2 ^ 63) mod (2 * 2 ^ 63) - 2 ^ 63 = i + n - 2 * 2 ^ 63"
    by (rule wrap_above) (use assms False in simp_all)
  then show ?thesis using assms False by (simp add: int64_add_def)
qed

lemma rollback_scan_result:
  "- 1 \<le> i \<Longrightarrow> i < int (length idx)
   \<Longrightarrow> \<exists>r. rollback_scan idx loc i = Inr r \<and> - 1 \<le> r \<and> r \<le> i
          \<and> (0 \<le> r \<longrightarrow> idx ! nat r \<le> loc)
          \<and> (\<forall>j. r < j \<and> j \<le> i \<longrightarrow> loc < idx ! nat j)"
proof (induction idx loc i rule: rollback_scan.induct)
  case (1 idx loc i)
  show ?case
  proof (cases "0 \<le> i")
    case False
    with "1.prems" have "i = - 1" by simp
    moreover have "rollback_scan idx loc i = Inr i"
      using False by (subst rollback_scan.simps) simp
    ultimately show ?thesis by auto
  next
    case True
    have g: "getitem idx i = Inr (idx ! nat i)"
      using True "1.prems" by (simp add: getitem_in_range)
    show ?thesis
    proof (cases "loc < idx ! nat i")
      case False
      then have "rollback_scan idx loc i = Inr i"
        using True g by (subst rollback_scan.simps) simp
      with False True show ?thesis by auto
    next
      case gt: True
      have eq: "rollback_scan idx loc i = rollback_scan idx loc (i - 1)"
        using True g gt by (subst rollback_scan.simps) simp
      obtain r where r: "rollback_scan idx loc (i - 1) = Inr r" "- 1 \<le> r" "r \<le> i - 1"
          "0 \<le> r \<longrightarrow> idx ! nat r \<le> loc" "\<forall>j. r < j \<and> j \<le> i - 1 \<longrightarrow> loc < idx ! nat j"
        using "1.IH"[OF True g gt] True "1.prems" by auto
      have "\<forall>j. r < j \<and> j \<le> i \<longrightarrow> loc < idx ! nat j"
      proof (intro allI impI)
        fix j assume j: "r < j \<and> j \<le> i"
        show "loc < idx ! nat j"
        proof (cases "j = i")
          case True with gt show ?thesis by simp
        next
          case False with j r(5) show ?thesis by simp
        qed
      qed
      with r eq show ?thesis by auto
    qed
  qed
qed

lemma filter_upt_empty_iff:
  "(filter P [0..<n] = []) = (\<forall>i<n. \<not> P i)"
  by (auto simp: filter_empty_conv)

lemma positionOfOrBefore_char:
  assumes "- 1 \<le> r" "r < int (length seq)"
    and "0 \<le> r \<longrightarrow> seq ! nat r \<le> pos"
    and "\<forall>j. r < j \<and> j \<le> int (length seq) - 1 \<longrightarrow> pos < seq ! nat j"
  shows "positionOfOrBefore seq pos = r"
proof (cases "0 \<le> r")
  case False
  with assms(1) have r: "r = - 1" by simp
  have "\<forall>i<length seq. \<not> seq ! i \<le> pos"
  proof (intro allI impI)
    fix i assume "i < length seq"
    then have "pos < seq ! nat (int i)" using assms(4) r by (intro assms(4)[rule_format]) simp
    then show "\<not> seq ! i \<le> pos" by simp
  qed
  then show ?thesis
    by (simp add: positionOfOrBefore_def filter_upt_empty_iff r)
next
  case True
  let ?S = "set (filter (\<lambda>i. seq ! i \<le> pos) [0..<length seq])"
  have mem: "nat r \<in> ?S" using True assms(2,3) by simp
  have ub: "\<And>i. i \<in> ?S \<Longrightarrow> i \<le> nat r"
  proof -
    fix i assume i: "i \<in> ?S"
    show "i \<le> nat r"
    proof (rule ccontr)
      assume "\<not> i \<le> nat r"
      then have "r < int i \<and> int i \<le> int (length seq) - 1" using i by auto
      then have "pos < seq ! nat (int i)" using assms(4) by blast
      with i show False by simp
    qed
  qed
  have "Max ?S = nat r"
    by (rule Max_eqI) (use mem ub in auto)
  moreover have "filter (\<lambda>i. seq ! i \<le> pos) [0..<length seq] \<noteq> []"
    using mem by (metis empty_iff empty_set)
  ultimately show ?thesis using True by (simp add: positionOfOrBefore_def)
qed

lemma positionOfOrAfter_char:
  assumes "r \<le> length seq"
    and "r < length seq \<longrightarrow> pos \<le> seq ! r"
    and "\<forall>j<r. seq ! j < pos"
  shows "positionOfOrAfter seq pos = int r"
proof (cases "r < length seq")
  case False
  with assms(1) have r: "r = length seq" by simp
  have "\<forall>i<length seq. \<not> pos \<le> seq ! i"
    using assms(3) r by (simp add: not_le)
  then show ?thesis
    by (simp add: positionOfOrAfter_def filter_upt_empty_iff r)
next
  case True
  let ?S = "set (filter (\<lambda>i. pos \<le> seq ! i) [0..<length seq])"
  have mem: "r \<in> ?S" using True assms(2) by simp
  have lb: "\<And>i. i \<in> ?S \<Longrightarrow> r \<le> i"
  proof -
    fix i assume i: "i \<in> ?S"
    show "r \<le> i"
    proof (rule ccontr)
      assume "\<not> r \<le> i"
      then have "seq ! i < pos" using assms(3) by simp
      with i show False by simp
    qed
  qed
  have "Min ?S = r"
    by (rule Min_eqI) (use mem lb in auto)
  moreover have "filter (\<lambda>i. pos \<le> seq ! i) [0..<length seq] \<noteq> []"
    using mem by (metis empty_iff empty_set)
  ultimately show ?thesis by (simp add: positionOfOrAfter_def)
qed

lemma rollback_scan_positionOfOrBefore:
  "rollback_scan idx p (int (length idx) - 1) = Inr (positionOfOrBefore idx p)"
proof -
  obtain r where r: "rollback_scan idx p (int (length idx) - 1) = Inr r" "- 1 \<le> r"
      "r \<le> int (length idx) - 1" "0 \<le> r \<longrightarrow> idx ! nat r \<le> p"
      "\<forall>j. r < j \<and> j \<le> int (length idx) - 1 \<longrightarrow> p < idx ! nat j"
    using rollback_scan_result[of "int (length idx) - 1" idx p] by auto
  have "positionOfOrBefore idx p = r"
    by (rule positionOfOrBefore_char) (use r in auto)
  with r(1) show ?thesis by simp
qed

lemma searchsorted_positionOfOrAfter:
  assumes "sorted idx"
  shows "searchsorted idx p = positionOfOrAfter idx p"
proof -
  let ?r = "binsearch_left idx p 0 (length idx)"
  have b: "?r \<le> length idx" using binsearch_left_bounds[of 0 "length idx" idx p] by simp
  have s: "(\<forall>j<?r. idx ! j < p) \<and> (\<forall>j. ?r \<le> j \<and> j < length idx \<longrightarrow> p \<le> idx ! j)"
    using binsearch_left_sorted[OF assms, of 0 "length idx" p] by simp
  have "positionOfOrAfter idx p = int ?r"
    by (rule positionOfOrAfter_char) (use b s in auto)
  then show ?thesis by (simp add: searchsorted_def)
qed

lemma sorted_rev_map_uminus:
  assumes "sorted (idx :: int list)"
  shows "sorted (rev (map uminus idx))"
proof -
  have "sorted_wrt (\<lambda>x y. y \<le> x) (map uminus idx)"
    using assms by (simp add: sorted_wrt_map)
  then show ?thesis by (simp add: sorted_wrt_rev)
qed

lemma nth_rev_map_uminus:
  "j < length (idx :: int list) \<Longrightarrow> rev (map uminus idx) ! j = - (idx ! (length idx - 1 - j))"
  by (simp add: rev_nth)

lemma positionOfOrBefore_mirror:
  assumes "sorted idx"
  shows "positionOfOrBefore idx p
           = int (length idx) - 1 - searchsorted (rev (map uminus idx)) (- p)"
proof -
  let ?m = "rev (map uminus idx)"
  let ?n = "length idx"
  let ?k = "binsearch_left ?m (- p) 0 ?n"
  have sm: "sorted ?m" by (rule sorted_rev_map_uminus[OF assms])
  have b: "?k \<le> ?n" using binsearch_left_bounds[of 0 ?n ?m "- p"] by simp
  have s: "(\<forall>j<?k. ?m ! j < - p) \<and> (\<forall>j. ?k \<le> j \<and> j < ?n \<longrightarrow> - p \<le> ?m ! j)"
    using binsearch_left_sorted[OF sm, of 0 ?n "- p"] by simp
  let ?r = "int ?n - 1 - int ?k"
  have "positionOfOrBefore idx p = ?r"
  proof (rule positionOfOrBefore_char)
    show "- 1 \<le> ?r" using b by simp
    show "?r < int ?n" by simp
    show "0 \<le> ?r \<longrightarrow> idx ! nat ?r \<le> p"
    proof
      assume "0 \<le> ?r"
      then have k: "?k < ?n" by simp
      then have "- p \<le> ?m ! ?k" using s by simp
      moreover have "?m ! ?k = - (idx ! (?n - 1 - ?k))" using k by (rule nth_rev_map_uminus)
      moreover have "nat ?r = ?n - 1 - ?k" using k by simp
      ultimately show "idx ! nat ?r \<le> p" by simp
    qed
    show "\<forall>j. ?r < j \<and> j \<le> int ?n - 1 \<longrightarrow> p < idx ! nat j"
    proof (intro allI impI)
      fix j assume j: "?r < j \<and> j \<le> int ?n - 1"
      let ?j' = "?n - 1 - nat j"
      have j0: "0 \<le> j" using j b by simp
      have jn: "nat j < ?n" using j j0 by linarith
      have "?j' < ?k" using j j0 jn by linarith
      then have "?m ! ?j' < - p" using s by simp
      moreover have "?m ! ?j' = - (idx ! (?n - 1 - ?j'))"
        using jn by (intro nth_rev_map_uminus) simp
      moreover have "?n - 1 - ?j' = nat j" using jn by simp
      ultimately show "p < idx ! nat j" by simp
    qed
  qed
  then show ?thesis by (simp add: searchsorted_def)
qed

section \<open>Properties of the constructor and of navigation\<close>

lemma Workshift_Inr_fields:
  assumes "Workshift tb q sarg = Inr w"
  shows "ws_tb w = tb \<and> ws_loc w = q
       \<and> ws_schedule w = (case sarg of None \<Rightarrow> default_schedule tb | Some s \<Rightarrow> s)
       \<and> label (ws_schedule w) q = Inr (ws_label w)"
  using assms
  by (auto simp: Workshift_def Let_def split: sum.splits lookup_error.splits)

lemma Workshift_not_IndexError: "Workshift tb q sarg \<noteq> Inl IndexError"
  by (simp add: Workshift_def Let_def split: sum.splits lookup_error.splits)

lemma Workshift_again:
  assumes "Workshift tb q sarg = Inr w"
  shows "Workshift (ws_tb w) (ws_loc w) (Some (ws_schedule w)) = Inr w"
  using assms
  by (auto simp: Workshift_def Let_def split: sum.splits lookup_error.splits)

lemma rollback_idx_eq: "rollback_idx ws duty = rollforward_idx ws duty"
  by (simp add: rollback_idx_def rollforward_idx_def)

text \<open>The two methods with the array reads resolved: every read is inside the array.\<close>

lemma rollforward_idx_length: "length (rollforward_idx ws duty) < 2 ^ 63"
  using length_elements[of "index_array (ws_schedule ws)"]
    length_elements[of "off_duty_array (ws_schedule ws)"]
    length_elements[of "on_duty_array (ws_schedule ws)"]
  by (simp add: rollforward_idx_def Let_def on_duty_index_def off_duty_index_def index_def)

lemma rollforward_from_eq:
  assumes "length idx < 2 ^ 63"
  shows "rollforward_from idx ws steps duty =
     (if searchsorted idx (ws_loc ws) = int (length idx)
      then Handle_out_of_bounds
             (Rollforward_message (to_timestamp ws) steps duty (activity (ws_schedule ws)))
      else if steps < - (2 ^ 63) \<or> 2 ^ 63 \<le> steps then Raised OverflowError
      else if searchsorted idx (ws_loc ws) + steps < 0
              \<or> int (length idx) \<le> searchsorted idx (ws_loc ws) + steps
      then Handle_out_of_bounds
             (Rollforward_message (to_timestamp ws) steps duty (activity (ws_schedule ws)))
      else (case Workshift (ws_tb ws) (idx ! nat (searchsorted idx (ws_loc ws) + steps))
                  (Some (ws_schedule ws)) of
              Inl e \<Rightarrow> Raised e
            | Inr w \<Rightarrow> Returned w))"
proof -
  let ?i = "searchsorted idx (ws_loc ws)"
  have len: "int (length idx) < 2 ^ 63" using assms by simp
  have b: "0 \<le> ?i" "?i \<le> int (length idx)"
    using searchsorted_bounds[of idx "ws_loc ws"] by simp_all
  show ?thesis
  proof (cases "?i = int (length idx)")
    case True
    then show ?thesis by (simp add: rollforward_from_def Let_def)
  next
    case ne: False
    show ?thesis
    proof (cases "steps < - (2 ^ 63) \<or> 2 ^ 63 \<le> steps")
      case True
      then show ?thesis
        using ne by (simp add: rollforward_from_def Let_def int64_add_overflow)
    next
      case False
      then have r: "- (2 ^ 63) \<le> steps" "steps < 2 ^ 63" by simp_all
      have i: "?i < 2 ^ 63" using b len by linarith
      have a: "int64_add ?i steps
          = Inr (if ?i + steps < 2 ^ 63 then ?i + steps else ?i + steps - 2 ^ 64)"
        by (rule int64_add_exact[OF b(1) i r])
      show ?thesis
      proof (cases "?i + steps < 2 ^ 63")
        case True
        then show ?thesis
          using ne False a by (simp add: rollforward_from_def Let_def getitem_in_range)
      next
        case over: False
        have "(2 :: int) ^ 64 = 2 * 2 ^ 63" by simp
        then have "?i + steps - 2 ^ 64 < 0" using i r by linarith
        moreover have "int (length idx) \<le> ?i + steps" using over len by linarith
        ultimately show ?thesis
          using ne False a over by (simp add: rollforward_from_def Let_def)
      qed
    qed
  qed
qed

lemma rollforward_eq:
  "rollforward ws steps duty =
     (if searchsorted (rollforward_idx ws duty) (ws_loc ws) = int (length (rollforward_idx ws duty))
      then Handle_out_of_bounds
             (Rollforward_message (to_timestamp ws) steps duty (activity (ws_schedule ws)))
      else if steps < - (2 ^ 63) \<or> 2 ^ 63 \<le> steps then Raised OverflowError
      else if searchsorted (rollforward_idx ws duty) (ws_loc ws) + steps < 0
              \<or> int (length (rollforward_idx ws duty))
                   \<le> searchsorted (rollforward_idx ws duty) (ws_loc ws) + steps
      then Handle_out_of_bounds
             (Rollforward_message (to_timestamp ws) steps duty (activity (ws_schedule ws)))
      else (case Workshift (ws_tb ws)
                  (rollforward_idx ws duty
                     ! nat (searchsorted (rollforward_idx ws duty) (ws_loc ws) + steps))
                  (Some (ws_schedule ws)) of
              Inl e \<Rightarrow> Raised e
            | Inr w \<Rightarrow> Returned w))"
  unfolding rollforward_def by (rule rollforward_from_eq[OF rollforward_idx_length])

lemma rollback_from_eq:
  "rollback_from idx ws steps duty =
     (if positionOfOrBefore idx (ws_loc ws) = - 1
         \<or> positionOfOrBefore idx (ws_loc ws) - steps < 0
         \<or> int (length idx) \<le> positionOfOrBefore idx (ws_loc ws) - steps
      then Handle_out_of_bounds
             (Rollback_message (to_timestamp ws) steps duty (activity (ws_schedule ws)))
      else (case Workshift (ws_tb ws) (idx ! nat (positionOfOrBefore idx (ws_loc ws) - steps))
                  (Some (ws_schedule ws)) of
              Inl e \<Rightarrow> Raised e
            | Inr w \<Rightarrow> Returned w))"
  by (simp add: rollback_from_def Let_def rollback_scan_positionOfOrBefore getitem_in_range)

lemma positionOfOrBefore_bounds:
  "- 1 \<le> positionOfOrBefore idx p \<and> positionOfOrBefore idx p < int (length idx)"
proof -
  obtain r where r: "rollback_scan idx p (int (length idx) - 1) = Inr r" "- 1 \<le> r"
      "r \<le> int (length idx) - 1"
    using rollback_scan_result[of "int (length idx) - 1" idx p] by auto
  then have "positionOfOrBefore idx p = r"
    using rollback_scan_positionOfOrBefore[of idx p] by simp
  with r show ?thesis by simp
qed

lemma positionOfOrBefore_props:
  "(0 \<le> positionOfOrBefore idx p \<longrightarrow> idx ! nat (positionOfOrBefore idx p) \<le> p)
   \<and> (\<forall>j. positionOfOrBefore idx p < int j \<and> j < length idx \<longrightarrow> p < idx ! j)"
proof -
  obtain r where r: "rollback_scan idx p (int (length idx) - 1) = Inr r"
      "0 \<le> r \<longrightarrow> idx ! nat r \<le> p"
      "\<forall>j. r < j \<and> j \<le> int (length idx) - 1 \<longrightarrow> p < idx ! nat j"
    using rollback_scan_result[of "int (length idx) - 1" idx p] by auto
  then have e: "positionOfOrBefore idx p = r"
    using rollback_scan_positionOfOrBefore[of idx p] by simp
  have "\<forall>j. r < int j \<and> j < length idx \<longrightarrow> p < idx ! j"
  proof (intro allI impI)
    fix j assume "r < int j \<and> j < length idx"
    then have "r < int j \<and> int j \<le> int (length idx) - 1" by simp
    then have "p < idx ! nat (int j)" using r(3) by blast
    then show "p < idx ! j" by simp
  qed
  with r(2) e show ?thesis by simp
qed

lemma searchsorted_mem:
  assumes "sorted idx" "p \<in> set idx"
  shows "searchsorted idx p < int (length idx) \<and> idx ! nat (searchsorted idx p) = p"
proof -
  obtain k where k: "k < length idx" "idx ! k = p"
    using assms(2) by (auto simp: in_set_conv_nth)
  let ?r = "searchsorted idx p"
  have b: "0 \<le> ?r" using searchsorted_bounds[of idx p] by simp
  have s: "(\<forall>j. int j < ?r \<longrightarrow> idx ! j < p)
         \<and> (\<forall>j. ?r \<le> int j \<and> j < length idx \<longrightarrow> p \<le> idx ! j)"
    by (rule searchsorted_sorted[OF assms(1)])
  have rk: "?r \<le> int k"
  proof (rule ccontr)
    assume "\<not> ?r \<le> int k"
    then have "idx ! k < p" using s by simp
    with k show False by simp
  qed
  then have lt: "?r < int (length idx)" using k by simp
  have "p \<le> idx ! nat ?r" using s b lt by simp
  moreover have "idx ! nat ?r \<le> idx ! k"
  proof (rule sorted_nth_mono[OF assms(1)])
    show "nat ?r \<le> k" using rk b by linarith
    show "k < length idx" by (rule k(1))
  qed
  ultimately show ?thesis using lt k by simp
qed

lemma positionOfOrBefore_mem:
  assumes "sorted idx" "p \<in> set idx"
  shows "0 \<le> positionOfOrBefore idx p \<and> idx ! nat (positionOfOrBefore idx p) = p"
proof -
  obtain k where k: "k < length idx" "idx ! k = p"
    using assms(2) by (auto simp: in_set_conv_nth)
  let ?r = "positionOfOrBefore idx p"
  have b: "?r < int (length idx)" using positionOfOrBefore_bounds[of idx p] by simp
  have s: "(0 \<le> ?r \<longrightarrow> idx ! nat ?r \<le> p)
         \<and> (\<forall>j. ?r < int j \<and> j < length idx \<longrightarrow> p < idx ! j)"
    by (rule positionOfOrBefore_props)
  have kr: "int k \<le> ?r"
  proof (rule ccontr)
    assume "\<not> int k \<le> ?r"
    then have "?r < int k \<and> k < length idx" using k by simp
    then have "p < idx ! k" using s by blast
    with k show False by simp
  qed
  then have ge: "0 \<le> ?r" by simp
  have "idx ! nat ?r \<le> p" using s ge by simp
  moreover have "idx ! k \<le> idx ! nat ?r"
  proof (rule sorted_nth_mono[OF assms(1)])
    show "k \<le> nat ?r" using kr ge by linarith
    show "nat ?r < length idx" using b ge by linarith
  qed
  ultimately show ?thesis using ge k by simp
qed

lemma anchors_agree:
  assumes "sorted_wrt (<) idx" "p \<in> set idx"
  shows "searchsorted idx p = positionOfOrBefore idx p"
proof -
  have s: "sorted idx" using assms(1) by (rule strict_sorted_imp_sorted)
  have d: "distinct idx" using assms(1) by (rule strict_sorted_iff[THEN iffD1, THEN conjunct2])
  have f: "searchsorted idx p < int (length idx)" "idx ! nat (searchsorted idx p) = p"
    using searchsorted_mem[OF s assms(2)] by simp_all
  have f0: "0 \<le> searchsorted idx p" using searchsorted_bounds[of idx p] by simp
  have g: "0 \<le> positionOfOrBefore idx p" "idx ! nat (positionOfOrBefore idx p) = p"
    using positionOfOrBefore_mem[OF s assms(2)] by simp_all
  have g1: "positionOfOrBefore idx p < int (length idx)"
    using positionOfOrBefore_bounds[of idx p] by simp
  have "nat (searchsorted idx p) < length idx" using f(1) f0 by linarith
  moreover have "nat (positionOfOrBefore idx p) < length idx" using g(1) g1 by linarith
  moreover have "idx ! nat (searchsorted idx p) = idx ! nat (positionOfOrBefore idx p)"
    using f(2) g(2) by simp
  ultimately have "nat (searchsorted idx p) = nat (positionOfOrBefore idx p)"
    using d by (simp add: nth_eq_iff_index_eq)
  then show ?thesis using f0 g by simp
qed

lemma rollforward_Returned_loc:
  assumes "rollforward ws steps duty = Returned w"
  shows "searchsorted (rollforward_idx ws duty) (ws_loc ws) \<noteq> int (length (rollforward_idx ws duty))
       \<and> 0 \<le> searchsorted (rollforward_idx ws duty) (ws_loc ws) + steps
       \<and> searchsorted (rollforward_idx ws duty) (ws_loc ws) + steps
            < int (length (rollforward_idx ws duty))
       \<and> Workshift (ws_tb ws)
            (rollforward_idx ws duty ! nat (searchsorted (rollforward_idx ws duty) (ws_loc ws) + steps))
            (Some (ws_schedule ws)) = Inr w"
  using assms unfolding rollforward_eq
  by (auto split: if_splits sum.splits)

lemma rollback_Returned_loc:
  assumes "rollback ws steps duty = Returned w"
  shows "positionOfOrBefore (rollback_idx ws duty) (ws_loc ws) \<noteq> - 1
       \<and> 0 \<le> positionOfOrBefore (rollback_idx ws duty) (ws_loc ws) - steps
       \<and> positionOfOrBefore (rollback_idx ws duty) (ws_loc ws) - steps
            < int (length (rollback_idx ws duty))
       \<and> Workshift (ws_tb ws)
            (rollback_idx ws duty ! nat (positionOfOrBefore (rollback_idx ws duty) (ws_loc ws) - steps))
            (Some (ws_schedule ws)) = Inr w"
  using assms unfolding rollback_def rollback_from_eq
  by (auto split: if_splits sum.splits)

lemma rollforward_not_IndexError: "rollforward ws steps duty \<noteq> Raised IndexError"
  unfolding rollforward_eq
  by (auto split: sum.splits simp: Workshift_not_IndexError)

lemma rollback_not_IndexError: "rollback ws steps duty \<noteq> Raised IndexError"
  unfolding rollback_def rollback_from_eq
  by (auto split: sum.splits simp: Workshift_not_IndexError)

lemma searchsorted_no_anchor:
  assumes "sorted seq"
  shows "(searchsorted seq p = int (length seq)) = (\<forall>x\<in>set seq. x < p)"
proof
  assume e: "searchsorted seq p = int (length seq)"
  have "\<forall>j. int j < searchsorted seq p \<longrightarrow> seq ! j < p"
    using searchsorted_sorted[OF assms, of p] by simp
  then have "\<forall>j<length seq. seq ! j < p" using e by simp
  then show "\<forall>x\<in>set seq. x < p" by (auto simp: in_set_conv_nth)
next
  assume a: "\<forall>x\<in>set seq. x < p"
  show "searchsorted seq p = int (length seq)"
  proof (rule ccontr)
    assume n: "searchsorted seq p \<noteq> int (length seq)"
    let ?r = "searchsorted seq p"
    have b: "0 \<le> ?r" "?r \<le> int (length seq)" using searchsorted_bounds[of seq p] by simp_all
    have lt: "nat ?r < length seq" using n b by linarith
    have "?r \<le> int (nat ?r) \<and> nat ?r < length seq" using b lt by simp
    then have "p \<le> seq ! nat ?r" using searchsorted_sorted[OF assms, of p] by blast
    moreover have "seq ! nat ?r < p" using a lt by simp
    ultimately show False by simp
  qed
qed

lemma positionOfOrBefore_no_anchor:
  "(positionOfOrBefore seq p = - 1) = (\<forall>x\<in>set seq. p < x)"
proof
  assume e: "positionOfOrBefore seq p = - 1"
  have "\<forall>j. positionOfOrBefore seq p < int j \<and> j < length seq \<longrightarrow> p < seq ! j"
    using positionOfOrBefore_props[of seq p] by simp
  then have "\<forall>j<length seq. p < seq ! j" using e by simp
  then show "\<forall>x\<in>set seq. p < x" by (auto simp: in_set_conv_nth)
next
  assume a: "\<forall>x\<in>set seq. p < x"
  show "positionOfOrBefore seq p = - 1"
  proof (rule ccontr)
    assume n: "positionOfOrBefore seq p \<noteq> - 1"
    let ?r = "positionOfOrBefore seq p"
    have b: "- 1 \<le> ?r" "?r < int (length seq)" using positionOfOrBefore_bounds[of seq p] by simp_all
    have ge: "0 \<le> ?r" using n b by linarith
    have lt: "nat ?r < length seq" using ge b by linarith
    have "seq ! nat ?r \<le> p" using positionOfOrBefore_props[of seq p] ge by simp
    moreover have "p < seq ! nat ?r" using a lt by simp
    ultimately show False by simp
  qed
qed

lemma Workshift_accepts:
  assumes "label s q = Inr l"
  shows "\<exists>w. Workshift tb q (Some s) = Inr w \<and> ws_loc w = q"
  using assms by (simp add: Workshift_def)

lemma rollforward_unrecognized:
  assumes "duty \<noteq> ''off''" "duty \<noteq> ''same''" "duty \<noteq> ''alt''" "duty \<noteq> ''any''"
  shows "rollforward_idx ws duty = on_duty_index (ws_schedule ws)"
  using assms by (simp add: rollforward_idx_def)

lemma rollback_unrecognized:
  assumes "duty \<noteq> ''off''" "duty \<noteq> ''same''" "duty \<noteq> ''alt''" "duty \<noteq> ''any''"
  shows "rollback_idx ws duty = on_duty_index (ws_schedule ws)"
  using assms by (simp add: rollback_idx_def)

lemma rollforward_from_outcome_duty:
  "(rollforward_from idx ws steps d = Returned w) = (rollforward_from idx ws steps d' = Returned w)"
  "(rollforward_from idx ws steps d = Raised e) = (rollforward_from idx ws steps d' = Raised e)"
  "(\<exists>msg. rollforward_from idx ws steps d = Handle_out_of_bounds msg)
     = (\<exists>msg. rollforward_from idx ws steps d' = Handle_out_of_bounds msg)"
  by (auto simp: rollforward_from_def Let_def split: sum.splits)

lemma rollback_from_outcome_duty:
  "(rollback_from idx ws steps d = Returned w) = (rollback_from idx ws steps d' = Returned w)"
  "(rollback_from idx ws steps d = Raised e) = (rollback_from idx ws steps d' = Raised e)"
  "(\<exists>msg. rollback_from idx ws steps d = Handle_out_of_bounds msg)
     = (\<exists>msg. rollback_from idx ws steps d' = Handle_out_of_bounds msg)"
  unfolding rollback_from_eq by (auto split: sum.splits)

lemma rollforward_overflow:
  assumes "searchsorted (rollforward_idx ws duty) (ws_loc ws)
             \<noteq> int (length (rollforward_idx ws duty))"
    and "steps < - (2 ^ 63) \<or> 2 ^ 63 \<le> steps"
  shows "rollforward ws steps duty = Raised OverflowError"
  unfolding rollforward_eq using assms by simp

text \<open>
  With \<open>steps\<close> inside \<open>int64\<close>, a sorted sequence and a schedule whose lookup knows the
  positions of its own index arrays, both methods call the out-of-bounds handler exactly
  when there is no zero-step anchor or the stepped index leaves \<open>[0, len(seq))\<close>, and
  return the workshift at the stepped index otherwise.
\<close>

lemma handler_exactly_when_int64:
  assumes "sorted (rollforward_idx ws duty)"
    and "\<forall>q\<in>set (rollforward_idx ws duty). \<exists>l. label (ws_schedule ws) q = Inr l"
    and "- (2 ^ 63) \<le> steps" and "steps < 2 ^ 63"
  shows "((\<exists>msg. rollforward ws steps duty = Handle_out_of_bounds msg)
            = ((\<forall>x\<in>set (rollforward_idx ws duty). x < ws_loc ws)
               \<or> positionOfOrAfter (rollforward_idx ws duty) (ws_loc ws) + steps < 0
               \<or> int (length (rollforward_idx ws duty))
                    \<le> positionOfOrAfter (rollforward_idx ws duty) (ws_loc ws) + steps))
       \<and> ((\<exists>msg. rollback ws steps duty = Handle_out_of_bounds msg)
            = ((\<forall>x\<in>set (rollback_idx ws duty). ws_loc ws < x)
               \<or> positionOfOrBefore (rollback_idx ws duty) (ws_loc ws) - steps < 0
               \<or> int (length (rollback_idx ws duty))
                    \<le> positionOfOrBefore (rollback_idx ws duty) (ws_loc ws) - steps))
       \<and> ((\<forall>msg. rollforward ws steps duty \<noteq> Handle_out_of_bounds msg) \<longrightarrow>
            (\<exists>w. rollforward ws steps duty = Returned w
                \<and> ws_loc w = rollforward_idx ws duty
                      ! nat (positionOfOrAfter (rollforward_idx ws duty) (ws_loc ws) + steps)
                \<and> ws_loc w \<in> set (rollforward_idx ws duty)))
       \<and> ((\<forall>msg. rollback ws steps duty \<noteq> Handle_out_of_bounds msg) \<longrightarrow>
            (\<exists>w. rollback ws steps duty = Returned w
                \<and> ws_loc w = rollback_idx ws duty
                      ! nat (positionOfOrBefore (rollback_idx ws duty) (ws_loc ws) - steps)
                \<and> ws_loc w \<in> set (rollback_idx ws duty)))"
proof -
  let ?seq = "rollforward_idx ws duty"
  let ?p = "ws_loc ws"
  let ?f = "positionOfOrAfter ?seq ?p + steps"
  let ?b = "positionOfOrBefore ?seq ?p - steps"
  have sa: "searchsorted ?seq ?p = positionOfOrAfter ?seq ?p"
    by (rule searchsorted_positionOfOrAfter[OF assms(1)])
  have na: "(positionOfOrAfter ?seq ?p = int (length ?seq)) = (\<forall>x\<in>set ?seq. x < ?p)"
    using searchsorted_no_anchor[OF assms(1), of ?p] sa by simp
  have nb: "(positionOfOrBefore ?seq ?p = - 1) = (\<forall>x\<in>set ?seq. ?p < x)"
    by (rule positionOfOrBefore_no_anchor)
  have acc: "\<And>t. 0 \<le> t \<Longrightarrow> t < int (length ?seq) \<Longrightarrow>
      \<exists>w. Workshift (ws_tb ws) (?seq ! nat t) (Some (ws_schedule ws)) = Inr w
          \<and> ws_loc w = ?seq ! nat t \<and> ws_loc w \<in> set ?seq"
  proof -
    fix t :: int assume t: "0 \<le> t" "t < int (length ?seq)"
    then have m: "?seq ! nat t \<in> set ?seq" by simp
    then obtain l where "label (ws_schedule ws) (?seq ! nat t) = Inr l"
      using assms(2) by blast
    from Workshift_accepts[OF this, of "ws_tb ws"] m
    show "\<exists>w. Workshift (ws_tb ws) (?seq ! nat t) (Some (ws_schedule ws)) = Inr w
          \<and> ws_loc w = ?seq ! nat t \<and> ws_loc w \<in> set ?seq"
      by auto
  qed
  have f1: "(\<exists>msg. rollforward ws steps duty = Handle_out_of_bounds msg)
      = ((\<forall>x\<in>set ?seq. x < ?p) \<or> ?f < 0 \<or> int (length ?seq) \<le> ?f)"
    unfolding rollforward_eq sa na[symmetric]
    using assms(3,4) by (auto split: sum.splits)
  have b1: "(\<exists>msg. rollback ws steps duty = Handle_out_of_bounds msg)
      = ((\<forall>x\<in>set ?seq. ?p < x) \<or> ?b < 0 \<or> int (length ?seq) \<le> ?b)"
    unfolding rollback_def rollback_idx_eq rollback_from_eq nb[symmetric]
    by (auto split: sum.splits)
  have f2: "(\<forall>msg. rollforward ws steps duty \<noteq> Handle_out_of_bounds msg) \<longrightarrow>
      (\<exists>w. rollforward ws steps duty = Returned w \<and> ws_loc w = ?seq ! nat ?f
          \<and> ws_loc w \<in> set ?seq)"
  proof
    assume "\<forall>msg. rollforward ws steps duty \<noteq> Handle_out_of_bounds msg"
    then have n: "\<not> ((\<forall>x\<in>set ?seq. x < ?p) \<or> ?f < 0 \<or> int (length ?seq) \<le> ?f)"
      using f1 by blast
    then have t: "0 \<le> ?f" "?f < int (length ?seq)" by simp_all
    obtain w where w: "Workshift (ws_tb ws) (?seq ! nat ?f) (Some (ws_schedule ws)) = Inr w"
        "ws_loc w = ?seq ! nat ?f" "ws_loc w \<in> set ?seq"
      using acc[OF t] by blast
    have "rollforward ws steps duty = Returned w"
      unfolding rollforward_eq sa using n w(1) na assms(3,4) by auto
    with w show "\<exists>w. rollforward ws steps duty = Returned w \<and> ws_loc w = ?seq ! nat ?f
          \<and> ws_loc w \<in> set ?seq" by blast
  qed
  have b2: "(\<forall>msg. rollback ws steps duty \<noteq> Handle_out_of_bounds msg) \<longrightarrow>
      (\<exists>w. rollback ws steps duty = Returned w \<and> ws_loc w = ?seq ! nat ?b
          \<and> ws_loc w \<in> set ?seq)"
  proof
    assume "\<forall>msg. rollback ws steps duty \<noteq> Handle_out_of_bounds msg"
    then have n: "\<not> ((\<forall>x\<in>set ?seq. ?p < x) \<or> ?b < 0 \<or> int (length ?seq) \<le> ?b)"
      using b1 by blast
    then have t: "0 \<le> ?b" "?b < int (length ?seq)" by simp_all
    obtain w where w: "Workshift (ws_tb ws) (?seq ! nat ?b) (Some (ws_schedule ws)) = Inr w"
        "ws_loc w = ?seq ! nat ?b" "ws_loc w \<in> set ?seq"
      using acc[OF t] by blast
    have "rollback ws steps duty = Returned w"
      unfolding rollback_def rollback_idx_eq rollback_from_eq using n w(1) nb by auto
    with w show "\<exists>w. rollback ws steps duty = Returned w \<and> ws_loc w = ?seq ! nat ?b
          \<and> ws_loc w \<in> set ?seq" by blast
  qed
  show ?thesis
    unfolding rollback_idx_eq using f1 b1 f2 b2 by blast
qed

section \<open>The ten-workshift timeboard evaluated\<close>

lemma example_rollforward_idx_on:
  "rollforward_idx (example_workshift p) ''on'' = [0, 2, 4, 6, 8]"
  by (simp add: rollforward_idx_def example_workshift_def example_schedule_def on_duty_index_def off_duty_index_def index_def elements_ndarray)

lemma example_rollback_idx_on:
  "rollback_idx (example_workshift p) ''on'' = [0, 2, 4, 6, 8]"
  by (simp add: rollback_idx_def example_workshift_def example_schedule_def on_duty_index_def off_duty_index_def index_def elements_ndarray)

lemma example_searchsorted_3: "searchsorted [0, 2, 4, 6, 8] 3 = 2"
  by code_simp

lemma example_searchsorted_4: "searchsorted [0, 2, 4, 6, 8] 4 = 2"
  by code_simp

lemma example_rollback_scan_3:
  "rollback_scan [0, 2, 4, 6, 8] 3 (int (length [0, 2, 4, 6, 8 :: int]) - 1) = Inr 1"
  by code_simp

lemma example_positionOfOrBefore_3: "positionOfOrBefore [0, 2, 4, 6, 8] 3 = 1"
  by code_simp

lemma example_positionOfOrBefore_4: "positionOfOrBefore [0, 2, 4, 6, 8] 4 = 2"
  by code_simp

lemma example_Workshift:
  "- 10 \<le> q \<Longrightarrow> q < 10
   \<Longrightarrow> Workshift example_timeboard q (Some example_schedule) = Inr (example_workshift q)"
  by (simp add: Workshift_def example_schedule_def example_workshift_def)

lemma example_Workshift_default:
  "- 10 \<le> q \<Longrightarrow> q < 10
   \<Longrightarrow> Workshift example_timeboard q None = Inr (example_workshift q)"
  by (simp add: Workshift_def Let_def example_schedule_def example_workshift_def example_timeboard_def)

lemma example_fields:
  "ws_tb (example_workshift p) = example_timeboard"
  "ws_loc (example_workshift p) = p"
  "ws_schedule (example_workshift p) = example_schedule"
  by (simp_all add: example_workshift_def)

lemma example_locs_differ: "ws_loc (example_workshift 4) \<noteq> ws_loc (example_workshift 2)"
  by (simp add: example_workshift_def)

lemma example_rollforward_on:
  assumes "searchsorted [0, 2, 4, 6, 8] p = i" and "i + k = 0 \<or> i + k = 1 \<or> i + k = 2 \<or> i + k = 3 \<or> i + k = 4"
    and "i \<noteq> 5"
  shows "rollforward (example_workshift p) k ''on''
           = Returned (example_workshift ([0, 2, 4, 6, 8] ! nat (i + k)))"
proof -
  have w: "Workshift example_timeboard ([0, 2, 4, 6, 8] ! nat (i + k)) (Some example_schedule)
        = Inr (example_workshift ([0, 2, 4, 6, 8] ! nat (i + k)))"
    using assms(2) by (auto simp: example_Workshift)
  have b: "0 \<le> i" "i \<le> 5"
    using searchsorted_bounds[of "[0, 2, 4, 6, 8]" p] assms(1) by simp_all
  show ?thesis
    unfolding rollforward_eq example_rollforward_idx_on example_fields
      assms(1)
    using w assms(2,3) b by auto
qed

lemma example_rollback_on:
  assumes "positionOfOrBefore [0, 2, 4, 6, 8] p = i" and "i - k = 0 \<or> i - k = 1 \<or> i - k = 2 \<or> i - k = 3 \<or> i - k = 4"
    and "i \<noteq> - 1"
  shows "rollback (example_workshift p) k ''on''
           = Returned (example_workshift ([0, 2, 4, 6, 8] ! nat (i - k)))"
proof -
  have w: "Workshift example_timeboard ([0, 2, 4, 6, 8] ! nat (i - k)) (Some example_schedule)
        = Inr (example_workshift ([0, 2, 4, 6, 8] ! nat (i - k)))"
    using assms(2) by (auto simp: example_Workshift)
  show ?thesis
    unfolding rollback_def example_rollback_idx_on rollback_from_eq example_fields
      assms(1)
    using w assms(2,3) by auto
qed

lemma example_rollforward_3_1: "rollforward (example_workshift 3) 1 ''on'' = Returned (example_workshift 6)"
  using example_rollforward_on[OF example_searchsorted_3, of 1] by simp

lemma example_rollforward_3_0: "rollforward (example_workshift 3) 0 ''on'' = Returned (example_workshift 4)"
  using example_rollforward_on[OF example_searchsorted_3, of 0] by simp

lemma example_rollback_3_0: "rollback (example_workshift 3) 0 ''on'' = Returned (example_workshift 2)"
  using example_rollback_on[OF example_positionOfOrBefore_3, of 0] by simp

lemma example_rollback_3_1: "rollback (example_workshift 3) 1 ''on'' = Returned (example_workshift 0)"
  using example_rollback_on[OF example_positionOfOrBefore_3, of 1] by simp

lemma example_rollforward_4_1: "rollforward (example_workshift 4) 1 ''on'' = Returned (example_workshift 6)"
  using example_rollforward_on[OF example_searchsorted_4, of 1] by simp

lemma example_rollback_4_m1: "rollback (example_workshift 4) (- 1) ''on'' = Returned (example_workshift 6)"
  using example_rollback_on[OF example_positionOfOrBefore_4, of "- 1"] by simp

lemma example_positionOfOrAfter_3: "positionOfOrAfter [0, 2, 4, 6, 8] 3 = 2"
  by code_simp

lemma example_duty_3:
  "ws_is_on_duty (example_workshift 3) = False" "ws_is_off_duty (example_workshift 3) = True"
  by (simp_all add: ws_is_on_duty_def ws_is_off_duty_def example_workshift_def example_schedule_def)

lemma example_indexes:
  "on_duty_index example_schedule = [0, 2, 4, 6, 8]"
  "off_duty_index example_schedule = [1, 3, 5, 7, 9]"
  "index example_schedule = [0, 1, 2, 3, 4, 5, 6, 7, 8, 9]"
  by (simp_all add: example_schedule_def on_duty_index_def off_duty_index_def index_def elements_ndarray)

lemma example_rollforward_3_1_any:
  "rollforward (example_workshift 3) 1 ''any'' = Returned (example_workshift 4)"
proof -
  have i: "rollforward_idx (example_workshift 3) ''any'' = [0, 1, 2, 3, 4, 5, 6, 7, 8, 9]"
    by (simp add: rollforward_idx_def example_workshift_def example_schedule_def on_duty_index_def off_duty_index_def index_def elements_ndarray)
  have s: "searchsorted [0, 1, 2, 3, 4, 5, 6, 7, 8, 9] 3 = 3" by code_simp
  show ?thesis
    unfolding rollforward_eq i example_fields s
    by (simp add: example_Workshift)
qed

lemma example_rollback_3_1_any:
  "rollback (example_workshift 3) 1 ''any'' = Returned (example_workshift 2)"
proof -
  have i: "rollback_idx (example_workshift 3) ''any'' = [0, 1, 2, 3, 4, 5, 6, 7, 8, 9]"
    by (simp add: rollback_idx_def example_workshift_def example_schedule_def on_duty_index_def off_duty_index_def index_def elements_ndarray)
  have s: "positionOfOrBefore [0, 1, 2, 3, 4, 5, 6, 7, 8, 9] 3 = 3" by code_simp
  show ?thesis
    unfolding rollback_def i rollback_from_eq example_fields s
    by (simp add: example_Workshift)
qed

lemma example_workshift_inject: "(example_workshift p = example_workshift q) = (p = q)"
  by (auto simp: example_workshift_def)

section \<open>The claims\<close>

text \<open>
  Claim C1. Sign symmetry, \<open>rollforward(p, steps=k, m) == rollback(p, steps=-k, m)\<close>
  whenever both succeed, does not hold for every start position. From position \<open>3\<close>
  (off duty) of the ten-workshift timeboard, with \<open>k = 0\<close> and mode \<open>'on'\<close>, both calls
  succeed: \<open>rollforward\<close> returns position \<open>4\<close>, the first on-duty position after \<open>3\<close>, and
  \<open>rollback\<close> returns position \<open>2\<close>, the last one before it.
\<close>

theorem sign_symmetry_counterexample:
  "Workshift example_timeboard 3 None = Inr (example_workshift 3)
   \<and> rollforward (example_workshift 3) 0 ''on'' = Returned (example_workshift 4)
   \<and> rollback (example_workshift 3) (- 0) ''on'' = Returned (example_workshift 2)
   \<and> ws_loc (example_workshift 4) \<noteq> ws_loc (example_workshift 2)"
  using example_rollforward_3_0 example_rollback_3_0 example_locs_differ
    example_Workshift_default[of 3]
  by simp

text \<open>
  Claim C1, amended. When the start position \<open>p\<close> is itself an entry of the strictly
  increasing sequence that mode \<open>m\<close> selects, the two anchors are the same entry, and
  whenever \<open>rollforward(p, steps=k, m)\<close> and \<open>rollback(p, steps=-k, m)\<close> both return a
  workshift they return the same one, at the same position.
\<close>

theorem sign_symmetry_on_member:
  assumes "sorted_wrt (<) (rollforward_idx ws m)"
    and "ws_loc ws \<in> set (rollforward_idx ws m)"
    and "rollforward ws k m = Returned a"
    and "rollback ws (- k) m = Returned b"
  shows "ws_loc a = ws_loc b \<and> a = b"
proof -
  let ?idx = "rollforward_idx ws m"
  have e: "searchsorted ?idx (ws_loc ws) = positionOfOrBefore ?idx (ws_loc ws)"
    by (rule anchors_agree[OF assms(1,2)])
  have g: "rollback_from ?idx ws (- k) m = Returned b"
    using assms(4) by (simp add: rollback_def rollback_idx_eq)
  have "a = b"
    using assms(3) g unfolding rollforward_eq rollback_from_eq e
    by (auto split: if_splits sum.splits)
  then show ?thesis by simp
qed

theorem sign_symmetry_on_member_witness:
  "sorted_wrt (<) (rollforward_idx (example_workshift 4) ''on'')
   \<and> ws_loc (example_workshift 4) \<in> set (rollforward_idx (example_workshift 4) ''on'')
   \<and> rollforward (example_workshift 4) 1 ''on'' = Returned (example_workshift 6)
   \<and> rollback (example_workshift 4) (- 1) ''on'' = Returned (example_workshift 6)
   \<and> ws_loc (example_workshift 6) = 6"
proof -
  have h1: "sorted_wrt (<) (rollforward_idx (example_workshift 4) ''on'')"
    by (simp add: example_rollforward_idx_on)
  have h2: "ws_loc (example_workshift 4) \<in> set (rollforward_idx (example_workshift 4) ''on'')"
    by (simp add: example_rollforward_idx_on example_fields)
  show ?thesis
    using h1 h2 example_rollforward_4_1 example_rollback_4_m1
      sign_symmetry_on_member[OF h1 h2 example_rollforward_4_1 example_rollback_4_m1]
    by (simp add: example_fields)
qed

text \<open>
  Claim C2. A successful \<open>rollforward\<close> from position \<open>p\<close> returns the position
  \<open>seq[i + steps]\<close>, where \<open>seq\<close> is the sorted sequence that the mode selects and \<open>i\<close> is
  the smallest index with \<open>seq[i] >= p\<close>: every entry before \<open>i\<close> is below \<open>p\<close>, so \<open>i\<close>
  is the index of \<open>p\<close> when \<open>p\<close> is an entry and of the first entry after \<open>p\<close> otherwise.
\<close>

theorem rollforward_returns_stepped_entry:
  assumes "sorted (rollforward_idx ws m)"
    and "rollforward ws steps m = Returned w"
  shows "\<exists>i. i < length (rollforward_idx ws m)
           \<and> ws_loc ws \<le> rollforward_idx ws m ! i
           \<and> (\<forall>j<i. rollforward_idx ws m ! j < ws_loc ws)
           \<and> 0 \<le> int i + steps \<and> int i + steps < int (length (rollforward_idx ws m))
           \<and> ws_loc w = rollforward_idx ws m ! nat (int i + steps)"
proof -
  let ?seq = "rollforward_idx ws m"
  let ?r = "searchsorted ?seq (ws_loc ws)"
  have r: "?r \<noteq> int (length ?seq)" "0 \<le> ?r + steps" "?r + steps < int (length ?seq)"
      "Workshift (ws_tb ws) (?seq ! nat (?r + steps)) (Some (ws_schedule ws)) = Inr w"
    using rollforward_Returned_loc[OF assms(2)] by simp_all
  have b: "0 \<le> ?r" "?r \<le> int (length ?seq)" using searchsorted_bounds[of ?seq "ws_loc ws"] by simp_all
  have s: "(\<forall>j. int j < ?r \<longrightarrow> ?seq ! j < ws_loc ws)
         \<and> (\<forall>j. ?r \<le> int j \<and> j < length ?seq \<longrightarrow> ws_loc ws \<le> ?seq ! j)"
    by (rule searchsorted_sorted[OF assms(1)])
  have lt: "nat ?r < length ?seq" using r(1) b by linarith
  have i: "int (nat ?r) = ?r" using b by simp
  have "ws_loc ws \<le> ?seq ! nat ?r" using s lt i by simp
  moreover have "\<forall>j<nat ?r. ?seq ! j < ws_loc ws" using s b by simp
  moreover have "ws_loc w = ?seq ! nat (?r + steps)"
    using Workshift_Inr_fields[OF r(4)] by simp
  ultimately show ?thesis
    using lt r(2,3) i by (intro exI[of _ "nat ?r"]) simp
qed

theorem rollforward_returns_stepped_entry_witness:
  "sorted (rollforward_idx (example_workshift 3) ''on'')
   \<and> rollforward (example_workshift 3) 1 ''on'' = Returned (example_workshift 6)
   \<and> (\<exists>i. i < length (rollforward_idx (example_workshift 3) ''on'')
           \<and> ws_loc (example_workshift 3) \<le> rollforward_idx (example_workshift 3) ''on'' ! i
           \<and> (\<forall>j<i. rollforward_idx (example_workshift 3) ''on'' ! j < ws_loc (example_workshift 3))
           \<and> 0 \<le> int i + 1
           \<and> int i + 1 < int (length (rollforward_idx (example_workshift 3) ''on''))
           \<and> ws_loc (example_workshift 6)
               = rollforward_idx (example_workshift 3) ''on'' ! nat (int i + 1))"
proof -
  have h: "sorted (rollforward_idx (example_workshift 3) ''on'')"
    by (simp add: example_rollforward_idx_on)
  show ?thesis
    using h example_rollforward_3_1
      rollforward_returns_stepped_entry[OF h example_rollforward_3_1]
    by simp
qed

text \<open>
  Claim C3. The scan of \<open>rollback\<close>, started at the last index and stepping down while
  \<open>idx[i] > p\<close>, computes \<open>positionOfOrBefore\<close>: on a strictly increasing \<open>idx\<close> it ends
  without an exception at the largest index \<open>i\<close> with \<open>idx[i] <= p\<close>, or at \<open>-1\<close> if there
  is none. The binary search of \<open>rollforward\<close> computes \<open>positionOfOrAfter\<close>, and the scan
  is its mirror image: it finds what the binary search finds in the reversed and negated
  array, counted from the other end.
\<close>

theorem rollback_scan_is_positionOfOrBefore:
  assumes "sorted_wrt (<) idx"
  shows "rollback_scan idx p (int (length idx) - 1) = Inr (positionOfOrBefore idx p)
       \<and> searchsorted idx p = positionOfOrAfter idx p
       \<and> rollback_scan idx p (int (length idx) - 1)
           = Inr (int (length idx) - 1 - searchsorted (rev (map uminus idx)) (- p))"
proof -
  have s: "sorted idx" using assms by (rule strict_sorted_imp_sorted)
  show ?thesis
    using rollback_scan_positionOfOrBefore[of idx p] searchsorted_positionOfOrAfter[OF s, of p]
      positionOfOrBefore_mirror[OF s, of p]
    by simp
qed

theorem rollback_scan_is_positionOfOrBefore_witness:
  "sorted_wrt (<) [0, 2, 4, 6, 8 :: int]
   \<and> rollback_scan [0, 2, 4, 6, 8] 3 (int (length [0, 2, 4, 6, 8 :: int]) - 1) = Inr 1
   \<and> positionOfOrBefore [0, 2, 4, 6, 8] 3 = 1
   \<and> searchsorted [0, 2, 4, 6, 8] 3 = 2
   \<and> positionOfOrAfter [0, 2, 4, 6, 8] 3 = 2
   \<and> searchsorted (rev (map uminus [0, 2, 4, 6, 8])) (- 3) = 3"
proof -
  have h: "sorted_wrt (<) [0, 2, 4, 6, 8 :: int]" by simp
  have b: "positionOfOrBefore [0, 2, 4, 6, 8] 3 = 1" by code_simp
  have a: "positionOfOrAfter [0, 2, 4, 6, 8] 3 = 2" by code_simp
  have m: "searchsorted (rev (map uminus [0, 2, 4, 6, 8])) (- 3) = 3" by code_simp
  show ?thesis
    using h a b m rollback_scan_is_positionOfOrBefore[OF h, of 3] by simp
qed

text \<open>
  Claim C4. Anchor inclusivity: when the position \<open>p\<close> of a workshift is an entry of the
  sorted sequence that mode \<open>m\<close> selects, \<open>rollforward(p, steps=0, m)\<close> and
  \<open>rollback(p, steps=0, m)\<close> both return the workshift at \<open>p\<close> itself.
\<close>

theorem zero_steps_returns_self:
  assumes "Workshift tb p sarg = Inr ws"
    and "sorted (rollforward_idx ws m)"
    and "p \<in> set (rollforward_idx ws m)"
  shows "rollforward ws 0 m = Returned ws \<and> rollback ws 0 m = Returned ws \<and> ws_loc ws = p"
proof -
  let ?seq = "rollforward_idx ws m"
  have p: "ws_loc ws = p" using Workshift_Inr_fields[OF assms(1)] by simp
  have again: "Workshift (ws_tb ws) p (Some (ws_schedule ws)) = Inr ws"
    using Workshift_again[OF assms(1)] p by simp
  have f: "searchsorted ?seq p < int (length ?seq)" "?seq ! nat (searchsorted ?seq p) = p"
    using searchsorted_mem[OF assms(2,3)] by simp_all
  have f0: "0 \<le> searchsorted ?seq p" using searchsorted_bounds[of ?seq p] by simp
  have g: "0 \<le> positionOfOrBefore ?seq p" "?seq ! nat (positionOfOrBefore ?seq p) = p"
    using positionOfOrBefore_mem[OF assms(2,3)] by simp_all
  have g1: "positionOfOrBefore ?seq p < int (length ?seq)"
    using positionOfOrBefore_bounds[of ?seq p] by simp
  have "rollforward ws 0 m = Returned ws"
    unfolding rollforward_eq p using f f0 again by simp
  moreover have "rollback ws 0 m = Returned ws"
    unfolding rollback_def rollback_idx_eq rollback_from_eq p using g g1 again by simp
  ultimately show ?thesis using p by simp
qed

theorem zero_steps_returns_self_witness:
  "Workshift example_timeboard 4 None = Inr (example_workshift 4)
   \<and> sorted (rollforward_idx (example_workshift 4) ''on'')
   \<and> 4 \<in> set (rollforward_idx (example_workshift 4) ''on'')
   \<and> rollforward (example_workshift 4) 0 ''on'' = Returned (example_workshift 4)
   \<and> rollback (example_workshift 4) 0 ''on'' = Returned (example_workshift 4)
   \<and> ws_loc (example_workshift 4) = 4"
proof -
  have h1: "Workshift example_timeboard 4 None = Inr (example_workshift 4)"
    by (simp add: example_Workshift_default)
  have h2: "sorted (rollforward_idx (example_workshift 4) ''on'')"
    by (simp add: example_rollforward_idx_on)
  have h3: "4 \<in> set (rollforward_idx (example_workshift 4) ''on'')"
    by (simp add: example_rollforward_idx_on)
  show ?thesis
    using h1 h2 h3 zero_steps_returns_self[OF h1 h2 h3] by simp
qed

text \<open>
  Claim C5. \<open>rollforward\<close> and \<open>rollback\<close> call the timeboard's out-of-bounds handler
  exactly when the selected sequence has no zero-step anchor or the stepped index falls
  outside \<open>[0, len(seq))\<close>. \<open>rollforward\<close> misses this for a step count outside \<open>int64\<close>:
  from position \<open>3\<close> of the ten-workshift timeboard with mode \<open>'on'\<close> the anchor is index
  \<open>2\<close> and \<open>steps = 2 ^ 63\<close> leads far beyond the five on-duty entries, yet the call ends
  in \<open>OverflowError\<close> and the handler is not called. \<open>rollback\<close> from the same position
  with \<open>steps = - (2 ^ 63)\<close> calls the handler.
\<close>

theorem rollforward_overflow_not_handled:
  "searchsorted (rollforward_idx (example_workshift 3) ''on'') (ws_loc (example_workshift 3)) = 2
   \<and> positionOfOrAfter (rollforward_idx (example_workshift 3) ''on'')
        (ws_loc (example_workshift 3)) = 2
   \<and> int (length (rollforward_idx (example_workshift 3) ''on''))
        \<le> positionOfOrAfter (rollforward_idx (example_workshift 3) ''on'')
             (ws_loc (example_workshift 3)) + 2 ^ 63
   \<and> rollforward (example_workshift 3) (2 ^ 63) ''on'' = Raised OverflowError
   \<and> rollback (example_workshift 3) (- (2 ^ 63)) ''on''
        = Handle_out_of_bounds (Rollback_message 1003 (- (2 ^ 63)) ''on'' ''on_duty'')"
proof -
  have s: "searchsorted (rollforward_idx (example_workshift 3) ''on'')
      (ws_loc (example_workshift 3)) = 2"
    by (simp add: example_rollforward_idx_on example_fields example_searchsorted_3)
  have a: "positionOfOrAfter (rollforward_idx (example_workshift 3) ''on'')
      (ws_loc (example_workshift 3)) = 2"
    by (simp add: example_rollforward_idx_on example_fields example_positionOfOrAfter_3)
  have l: "int (length (rollforward_idx (example_workshift 3) ''on'')) = 5"
    by (simp add: example_rollforward_idx_on)
  have f: "rollforward (example_workshift 3) (2 ^ 63) ''on'' = Raised OverflowError"
    by (rule rollforward_overflow) (simp_all add: s l)
  have t: "to_timestamp (example_workshift 3) = 1003"
    by (simp add: to_timestamp_def example_workshift_def example_timeboard_def)
  have c: "activity (ws_schedule (example_workshift 3)) = ''on_duty''"
    by (simp add: example_fields example_schedule_def)
  have b: "rollback (example_workshift 3) (- (2 ^ 63)) ''on''
      = Handle_out_of_bounds (Rollback_message 1003 (- (2 ^ 63)) ''on'' ''on_duty'')"
    unfolding rollback_def example_rollback_idx_on rollback_from_eq example_fields
      example_positionOfOrBefore_3 t
    using c by (simp add: example_fields)
  show ?thesis using s a l f b by simp
qed

text \<open>
  Claim C6. The sequence that \<open>rollforward\<close> and \<open>rollback\<close> walk: \<open>'on'\<close> selects the
  on-duty index and \<open>'off'\<close> the off-duty index; \<open>'same'\<close> selects the on-duty index if
  the start is on duty and the off-duty index otherwise; \<open>'alt'\<close> selects the off-duty
  index if the start is on duty and the on-duty index otherwise; \<open>'any'\<close> selects the full
  index. The schedule's two duty flags of the start position are each other's negation.
\<close>

theorem duty_selects_sequence:
  assumes "ws_is_off_duty ws = (\<not> ws_is_on_duty ws)"
  shows "rollforward ws steps duty = rollforward_from (rollforward_idx ws duty) ws steps duty
       \<and> rollback ws steps duty = rollback_from (rollback_idx ws duty) ws steps duty
       \<and> rollforward_idx ws ''on'' = on_duty_index (ws_schedule ws)
       \<and> rollforward_idx ws ''off'' = off_duty_index (ws_schedule ws)
       \<and> rollforward_idx ws ''same''
            = (if ws_is_on_duty ws then on_duty_index (ws_schedule ws)
               else off_duty_index (ws_schedule ws))
       \<and> rollforward_idx ws ''alt''
            = (if ws_is_on_duty ws then off_duty_index (ws_schedule ws)
               else on_duty_index (ws_schedule ws))
       \<and> rollforward_idx ws ''any'' = index (ws_schedule ws)
       \<and> rollback_idx ws ''on'' = on_duty_index (ws_schedule ws)
       \<and> rollback_idx ws ''off'' = off_duty_index (ws_schedule ws)
       \<and> rollback_idx ws ''same''
            = (if ws_is_on_duty ws then on_duty_index (ws_schedule ws)
               else off_duty_index (ws_schedule ws))
       \<and> rollback_idx ws ''alt''
            = (if ws_is_on_duty ws then off_duty_index (ws_schedule ws)
               else on_duty_index (ws_schedule ws))
       \<and> rollback_idx ws ''any'' = index (ws_schedule ws)"
  using assms
  by (simp add: rollforward_def rollback_def rollforward_idx_def rollback_idx_def)

theorem duty_selects_sequence_witness:
  "ws_is_off_duty (example_workshift 3) = (\<not> ws_is_on_duty (example_workshift 3))
   \<and> rollforward_idx (example_workshift 3) ''on'' = [0, 2, 4, 6, 8]
   \<and> rollforward_idx (example_workshift 3) ''off'' = [1, 3, 5, 7, 9]
   \<and> rollforward_idx (example_workshift 3) ''same'' = [1, 3, 5, 7, 9]
   \<and> rollforward_idx (example_workshift 3) ''alt'' = [0, 2, 4, 6, 8]
   \<and> rollforward_idx (example_workshift 3) ''any'' = [0, 1, 2, 3, 4, 5, 6, 7, 8, 9]
   \<and> rollback_idx (example_workshift 3) ''same'' = [1, 3, 5, 7, 9]
   \<and> rollback_idx (example_workshift 3) ''alt'' = [0, 2, 4, 6, 8]"
proof -
  have h: "ws_is_off_duty (example_workshift 3) = (\<not> ws_is_on_duty (example_workshift 3))"
    by (simp add: example_duty_3)
  show ?thesis
    using h duty_selects_sequence[OF h]
    by (simp add: example_duty_3 example_fields example_indexes)
qed

text \<open>
  Claim C7. A duty argument that is none of \<open>'off'\<close>, \<open>'same'\<close>, \<open>'alt'\<close>, \<open>'any'\<close> is not
  rejected: \<open>rollforward\<close> and \<open>rollback\<close> walk the on-duty index, as with \<open>'on'\<close>, and return
  the same workshift, raise the same error and call the out-of-bounds handler in the
  same cases as with \<open>'on'\<close>. (The handler's message quotes the duty argument as given.)
\<close>

theorem unrecognized_duty_is_on:
  assumes "duty \<notin> {''off'', ''same'', ''alt'', ''any''}"
  shows "rollforward_idx ws duty = on_duty_index (ws_schedule ws)
       \<and> rollback_idx ws duty = on_duty_index (ws_schedule ws)
       \<and> rollforward ws steps duty = rollforward_from (on_duty_index (ws_schedule ws)) ws steps duty
       \<and> rollback ws steps duty = rollback_from (on_duty_index (ws_schedule ws)) ws steps duty
       \<and> (\<forall>w. (rollforward ws steps duty = Returned w) = (rollforward ws steps ''on'' = Returned w))
       \<and> (\<forall>e. (rollforward ws steps duty = Raised e) = (rollforward ws steps ''on'' = Raised e))
       \<and> ((\<exists>msg. rollforward ws steps duty = Handle_out_of_bounds msg)
            = (\<exists>msg. rollforward ws steps ''on'' = Handle_out_of_bounds msg))
       \<and> (\<forall>w. (rollback ws steps duty = Returned w) = (rollback ws steps ''on'' = Returned w))
       \<and> (\<forall>e. (rollback ws steps duty = Raised e) = (rollback ws steps ''on'' = Raised e))
       \<and> ((\<exists>msg. rollback ws steps duty = Handle_out_of_bounds msg)
            = (\<exists>msg. rollback ws steps ''on'' = Handle_out_of_bounds msg))"
proof -
  have d: "duty \<noteq> ''off''" "duty \<noteq> ''same''" "duty \<noteq> ''alt''" "duty \<noteq> ''any''"
    using assms by simp_all
  have f: "rollforward_idx ws duty = on_duty_index (ws_schedule ws)"
    by (rule rollforward_unrecognized[OF d])
  have b: "rollback_idx ws duty = on_duty_index (ws_schedule ws)"
    by (rule rollback_unrecognized[OF d])
  have f': "rollforward_idx ws ''on'' = on_duty_index (ws_schedule ws)"
    by (simp add: rollforward_idx_def)
  have b': "rollback_idx ws ''on'' = on_duty_index (ws_schedule ws)"
    by (simp add: rollback_idx_def)
  show ?thesis
    unfolding rollforward_def rollback_def f b f' b'
    using rollforward_from_outcome_duty[where idx = "on_duty_index (ws_schedule ws)"
        and ws = ws and steps = steps and d = duty and d' = "''on''"]
      rollback_from_outcome_duty[where idx = "on_duty_index (ws_schedule ws)"
        and ws = ws and steps = steps and d = duty and d' = "''on''"]
    by blast
qed

theorem unrecognized_duty_is_on_witness:
  "''weekend'' \<notin> {''off'', ''same'', ''alt'', ''any''}
   \<and> rollforward_idx (example_workshift 3) ''weekend'' = [0, 2, 4, 6, 8]
   \<and> rollback_idx (example_workshift 3) ''weekend'' = [0, 2, 4, 6, 8]
   \<and> rollforward (example_workshift 3) 1 ''weekend'' = Returned (example_workshift 6)
   \<and> rollback (example_workshift 3) 1 ''weekend'' = Returned (example_workshift 0)"
proof -
  have h: "''weekend'' \<notin> {''off'', ''same'', ''alt'', ''any''}" by simp
  note t = unrecognized_duty_is_on[OF h, of "example_workshift 3" 1]
  have i: "on_duty_index (ws_schedule (example_workshift 3)) = [0, 2, 4, 6, 8]"
    by (simp add: example_fields example_indexes)
  have a: "rollforward_idx (example_workshift 3) ''weekend'' = [0, 2, 4, 6, 8]"
    using t i by simp
  have b: "rollback_idx (example_workshift 3) ''weekend'' = [0, 2, 4, 6, 8]"
    using t i by simp
  have c: "rollforward (example_workshift 3) 1 ''weekend'' = Returned (example_workshift 6)"
    using t example_rollforward_3_1 by blast
  have d: "rollback (example_workshift 3) 1 ''weekend'' = Returned (example_workshift 0)"
    using t example_rollback_3_1 by blast
  show ?thesis using h a b c d by blast
qed

text \<open>
  Claim C8. For a workshift \<open>ws\<close> and an integer \<open>n\<close>, \<open>ws + n\<close> is
  \<open>ws.rollforward(steps=n, duty='on')\<close> and \<open>ws - n\<close> is \<open>ws.rollback(steps=n, duty='on')\<close>.
  The implicit mode is \<open>'on'\<close> and not \<open>'any'\<close>: from the off-duty position \<open>3\<close> of the
  ten-workshift timeboard, \<open>ws + 1\<close> and \<open>ws - 1\<close> are not what mode \<open>'any'\<close> gives.
\<close>

theorem operators_use_on_duty:
  "add ws (Int_operand n) = Result (rollforward ws n ''on'')
   \<and> sub ws (Int_operand n) = Result (rollback ws n ''on'')
   \<and> add (example_workshift 3) (Int_operand 1)
        \<noteq> Result (rollforward (example_workshift 3) 1 ''any'')
   \<and> sub (example_workshift 3) (Int_operand 1)
        \<noteq> Result (rollback (example_workshift 3) 1 ''any'')"
  by (simp add: add_def sub_def example_rollforward_3_1 example_rollback_3_1
      example_rollforward_3_1_any example_rollback_3_1_any example_workshift_inject)

text \<open>
  Claim C9. Constructing a workshift fails with \<open>TypeError\<close> exactly when the schedule's
  label lookup rejects the location as not integer-like, fails with \<open>OutOfBoundsError\<close>
  exactly when the lookup rejects it as out of range, and succeeds otherwise, with the
  location stored as given. The constructor has no test of its own: a negative location
  that the lookup resolves gives a workshift.
\<close>

theorem Workshift_fails_as_label_does:
  assumes "s = (case schedule_arg of None \<Rightarrow> default_schedule tb | Some s' \<Rightarrow> s')"
  shows "((Workshift tb location schedule_arg = Inl TypeError)
            = (label s location = Inl Label_TypeError))
       \<and> ((Workshift tb location schedule_arg = Inl OutOfBoundsError)
            = (label s location = Inl Label_IndexError))
       \<and> ((\<exists>ws. Workshift tb location schedule_arg = Inr ws) = (\<exists>l. label s location = Inr l))
       \<and> (\<forall>l. label s location = Inr l \<longrightarrow>
              Workshift tb location schedule_arg
                = Inr \<lparr>ws_tb = tb, ws_loc = location, ws_schedule = s, ws_label = l\<rparr>)
       \<and> Workshift tb location schedule_arg \<noteq> Inl IndexError"
  using assms
  by (auto simp: Workshift_def Let_def split: sum.splits lookup_error.splits option.splits)

theorem Workshift_fails_as_label_does_witness:
  "label example_schedule (- 1) = Inr 0
   \<and> Workshift example_timeboard (- 1) None
        = Inr \<lparr>ws_tb = example_timeboard, ws_loc = - 1, ws_schedule = example_schedule,
               ws_label = 0\<rparr>
   \<and> label example_schedule 10 = Inl Label_IndexError
   \<and> Workshift example_timeboard 10 None = Inl OutOfBoundsError
   \<and> label string_schedule ''monday'' = Inl Label_TypeError
   \<and> Workshift string_timeboard ''monday'' None = Inl TypeError"
proof -
  have e: "example_schedule
      = (case None of None \<Rightarrow> default_schedule example_timeboard | Some s' \<Rightarrow> s')"
    by (simp add: example_timeboard_def)
  have t: "string_schedule
      = (case None of None \<Rightarrow> default_schedule string_timeboard | Some s' \<Rightarrow> s')"
    by (simp add: string_timeboard_def)
  have l1: "label example_schedule (- 1) = Inr 0" by (simp add: example_schedule_def)
  have l2: "label example_schedule 10 = Inl Label_IndexError" by (simp add: example_schedule_def)
  have l3: "label string_schedule ''monday'' = Inl Label_TypeError"
    by (simp add: string_schedule_def)
  show ?thesis
    using l1 l2 l3
      Workshift_fails_as_label_does[OF e, of "- 1"]
      Workshift_fails_as_label_does[OF e, of 10]
      Workshift_fails_as_label_does[OF t, of "''monday''"]
    by simp
qed

text \<open>
  Claim C10. Whenever \<open>rollforward\<close> returns a workshift, the index \<open>i + steps\<close> it reads
  lies in \<open>[0, len(idx))\<close>, and whenever \<open>rollback\<close> returns one, so does \<open>i - steps\<close>,
  with \<open>i\<close> the index its scan ended at: the read gives the entry at that very index,
  which is the position returned, and no index is negative. Neither method can end in
  an \<open>IndexError\<close>, the reads of the scan included.
\<close>

theorem navigation_reads_in_bounds:
  "(rollforward ws steps duty = Returned w \<longrightarrow>
       0 \<le> searchsorted (rollforward_idx ws duty) (ws_loc ws) + steps
     \<and> searchsorted (rollforward_idx ws duty) (ws_loc ws) + steps
          < int (length (rollforward_idx ws duty))
     \<and> getitem (rollforward_idx ws duty)
          (searchsorted (rollforward_idx ws duty) (ws_loc ws) + steps) = Inr (ws_loc w))
   \<and> (rollback ws steps duty = Returned w' \<longrightarrow>
       (\<exists>i. rollback_scan (rollback_idx ws duty) (ws_loc ws)
                (int (length (rollback_idx ws duty)) - 1) = Inr i
           \<and> 0 \<le> i - steps \<and> i - steps < int (length (rollback_idx ws duty))
           \<and> getitem (rollback_idx ws duty) (i - steps) = Inr (ws_loc w')))
   \<and> rollforward ws steps duty \<noteq> Raised IndexError
   \<and> rollback ws steps duty \<noteq> Raised IndexError"
proof (intro conjI impI)
  assume a: "rollforward ws steps duty = Returned w"
  let ?idx = "rollforward_idx ws duty"
  let ?t = "searchsorted ?idx (ws_loc ws) + steps"
  have r: "0 \<le> ?t" "?t < int (length ?idx)"
      "Workshift (ws_tb ws) (?idx ! nat ?t) (Some (ws_schedule ws)) = Inr w"
    using rollforward_Returned_loc[OF a] by simp_all
  show "0 \<le> ?t" by (rule r(1))
  show "?t < int (length ?idx)" by (rule r(2))
  show "getitem ?idx ?t = Inr (ws_loc w)"
    using getitem_in_range[OF r(1,2)] Workshift_Inr_fields[OF r(3)] by simp
next
  assume a: "rollback ws steps duty = Returned w'"
  let ?idx = "rollback_idx ws duty"
  let ?i = "positionOfOrBefore ?idx (ws_loc ws)"
  have r: "0 \<le> ?i - steps" "?i - steps < int (length ?idx)"
      "Workshift (ws_tb ws) (?idx ! nat (?i - steps)) (Some (ws_schedule ws)) = Inr w'"
    using rollback_Returned_loc[OF a] by simp_all
  have "getitem ?idx (?i - steps) = Inr (ws_loc w')"
    using getitem_in_range[OF r(1,2)] Workshift_Inr_fields[OF r(3)] by simp
  then show "\<exists>i. rollback_scan ?idx (ws_loc ws) (int (length ?idx) - 1) = Inr i
           \<and> 0 \<le> i - steps \<and> i - steps < int (length ?idx)
           \<and> getitem ?idx (i - steps) = Inr (ws_loc w')"
    using r(1,2) rollback_scan_positionOfOrBefore[of ?idx "ws_loc ws"] by blast
next
  show "rollforward ws steps duty \<noteq> Raised IndexError" by (rule rollforward_not_IndexError)
  show "rollback ws steps duty \<noteq> Raised IndexError" by (rule rollback_not_IndexError)
qed

theorem navigation_reads_in_bounds_witness:
  "rollforward (example_workshift 3) 1 ''on'' = Returned (example_workshift 6)
   \<and> 0 \<le> searchsorted [0, 2, 4, 6, 8] 3 + 1
   \<and> searchsorted [0, 2, 4, 6, 8] 3 + 1 < int (length [0, 2, 4, 6, 8 :: int])
   \<and> getitem [0, 2, 4, 6, 8] (searchsorted [0, 2, 4, 6, 8] 3 + 1) = Inr 6
   \<and> rollback (example_workshift 3) 1 ''on'' = Returned (example_workshift 0)
   \<and> rollback_scan [0, 2, 4, 6, 8] 3 (int (length [0, 2, 4, 6, 8 :: int]) - 1) = Inr 1
   \<and> getitem [0, 2, 4, 6, 8] (1 - 1) = Inr 0"
  using navigation_reads_in_bounds[of "example_workshift 3" 1 "''on''" "example_workshift 6"
      "example_workshift 0"]
    example_rollforward_3_1 example_rollback_3_1 example_rollback_scan_3
  by (simp add: example_rollforward_idx_on example_rollback_idx_on example_fields)

end
